theory Spec2Isabelle
  imports Complex_Main "HOL-Library.Multiset" "HOL-Library.AList" "HOL-Library.List_Lexorder" "HOL-Library.Char_ord"
begin

section \<open>Python values used by \<^verbatim>\<open>scripts/run_benchmarks.py\<close>\<close>

text \<open>
  A \<^typ>\<open>string\<close> stands for a Python \<^verbatim>\<open>str\<close> whose code points are all below 256,
  one \<^typ>\<open>char\<close> per code point. Exceptions are values: every constructor of
  \<open>py_exception\<close> is a subclass of Python's \<^verbatim>\<open>Exception\<close>, so the
  \<^verbatim>\<open>except Exception\<close> clause of \<^verbatim>\<open>summarize_artifacts\<close> catches each of them.
  \<open>LibraryError\<close> stands for whatever the decoders and the file system raise
  (\<^verbatim>\<open>json.JSONDecodeError\<close>, \<^verbatim>\<open>UnicodeDecodeError\<close>, \<^verbatim>\<open>OSError\<close>, \<^verbatim>\<open>yaml.YAMLError\<close>);
  its argument is the text \<^verbatim>\<open>str(exc)\<close>.
\<close>

datatype py_exception =
    ValueError string
  | OverflowError string
  | StatisticsError string
  | LibraryError string

fun exc_str :: "py_exception \<Rightarrow> string" where
  "exc_str (ValueError s) = s"
| "exc_str (OverflowError s) = s"
| "exc_str (StatisticsError s) = s"
| "exc_str (LibraryError s) = s"

text \<open>\<^verbatim>\<open>sep.join(xs)\<close>.\<close>

fun join :: "string \<Rightarrow> string list \<Rightarrow> string" where
  "join sep [] = []"
| "join sep [x] = x"
| "join sep (x # y # ys) = x @ sep @ join sep (y # ys)"

text \<open>Decimal rendering of a non-negative integer, as \<^verbatim>\<open>str(n)\<close> and \<^verbatim>\<open>f"{n}"\<close> give it.\<close>

definition digit :: "nat \<Rightarrow> char" where
  "digit d = ''0123456789'' ! d"

fun str_nat :: "nat \<Rightarrow> string" where
  "str_nat n = (if n < 10 then [digit n] else str_nat (n div 10) @ [digit (n mod 10)])"

declare str_nat.simps [simp del]

definition str_int :: "int \<Rightarrow> string" where
  "str_int i = (if i < 0 then ''-'' @ str_nat (nat (- i)) else str_nat (nat i))"

text \<open>\<^verbatim>\<open>repr\<close> of a list of strings that contain neither quotes nor backslashes.\<close>

definition squote :: string where
  "squote = [CHR 0x27]"

definition repr_str_list :: "string list \<Rightarrow> string" where
  "repr_str_list xs = ''['' @ join '', '' (map (\<lambda>s. squote @ s @ squote) xs) @ '']''"

section \<open>Command builder and runner\<close>

record tool_profile =
  executable :: "string list"
  config_flag :: "string option"
  model_flag :: "string option"

text \<open>The table \<^verbatim>\<open>TOOL_COMMANDS\<close>, in the order of the source.\<close>

definition TOOL_COMMANDS :: "(string \<times> tool_profile) list" where
  "TOOL_COMMANDS =
    [(''openai-evals'',
        \<lparr>executable = [''oaieval'', ''run''], config_flag = None, model_flag = Some ''--model''\<rparr>),
     (''helm'',
        \<lparr>executable = [''helm-run''], config_flag = Some ''--config'', model_flag = Some ''--model''\<rparr>),
     (''lm-eval'',
        \<lparr>executable = [''lm_eval''], config_flag = Some ''--config'', model_flag = Some ''--model''\<rparr>)]"

text \<open>\<^verbatim>\<open>sorted(TOOL_COMMANDS)\<close>: the keys in ascending order.\<close>

definition sorted_tools :: "string list" where
  "sorted_tools = sort (map fst TOOL_COMMANDS)"

definition unsupported_tool :: "string \<Rightarrow> py_exception" where
  "unsupported_tool tool =
     ValueError (''Unsupported tool '' @ squote @ tool @ squote @ ''. Expected one of '' @
                 repr_str_list sorted_tools)"

text \<open>
  \<^verbatim>\<open>build_command(tool, config, model, extra)\<close>. The argument \<open>config\<close> is the text
  \<^verbatim>\<open>str(config)\<close> of the path. The tests \<^verbatim>\<open>if meta["config_flag"]\<close> and
  \<^verbatim>\<open>if model and meta["model_flag"]\<close> are Python truth tests: \<^verbatim>\<open>None\<close> and the empty string
  are both false. The three stages of the source (\<^verbatim>\<open>command.extend\<close> or
  \<^verbatim>\<open>append\<close> for the configuration, \<^verbatim>\<open>extend\<close> for the model, \<^verbatim>\<open>extend(extra)\<close>) are kept
  apart.
\<close>

definition add_config :: "tool_profile \<Rightarrow> string \<Rightarrow> string list \<Rightarrow> string list" where
  "add_config meta config command =
     (case config_flag meta of
        Some flag \<Rightarrow> (if flag \<noteq> [] then command @ [flag, config] else command @ [config])
      | None \<Rightarrow> command @ [config])"

definition add_model :: "tool_profile \<Rightarrow> string option \<Rightarrow> string list \<Rightarrow> string list" where
  "add_model meta model command =
     (case (model, model_flag meta) of
        (Some m, Some flag) \<Rightarrow> (if m \<noteq> [] \<and> flag \<noteq> [] then command @ [flag, m] else command)
      | _ \<Rightarrow> command)"

definition build_command ::
  "string \<Rightarrow> string \<Rightarrow> string option \<Rightarrow> string list \<Rightarrow> py_exception + string list" where
  "build_command tool config model extra =
     (case map_of TOOL_COMMANDS tool of
        None \<Rightarrow> Inl (unsupported_tool tool)
      | Some meta \<Rightarrow>
          Inr (add_model meta model (add_config meta config (executable meta)) @ extra))"

text \<open>
  The effects of the program: what has been printed to the two output streams, which
  commands have been handed to \<^verbatim>\<open>subprocess.run\<close>, which directories have been created.
\<close>

record world =
  stdout :: "string list"
  stderr :: "string list"
  spawned :: "string list list"
  created_dirs :: "string list"

definition print :: "string \<Rightarrow> world \<Rightarrow> world" where
  "print line w = w\<lparr>stdout := stdout w @ [line]\<rparr>"

text \<open>
  \<^verbatim>\<open>command_available\<close>: \<open>which exe\<close> says whether \<^verbatim>\<open>shutil.which(exe)\<close> finds the
  executable on the search path.
\<close>

definition command_available :: "(string \<Rightarrow> bool) \<Rightarrow> string list \<Rightarrow> bool" where
  "command_available which command =
     (case command of [] \<Rightarrow> False | exe # _ \<Rightarrow> which exe)"

text \<open>
  \<^verbatim>\<open>run_tool\<close>. \<open>subprocess_run command\<close> is the return code of the child process. A
  \<^verbatim>\<open>ValueError\<close> of \<^verbatim>\<open>build_command\<close> leaves the function before anything is printed.
\<close>

definition run_tool ::
  "(string \<Rightarrow> bool) \<Rightarrow> (string list \<Rightarrow> int) \<Rightarrow>
   string \<Rightarrow> string \<Rightarrow> string option \<Rightarrow> bool \<Rightarrow> string list \<Rightarrow> world \<Rightarrow>
   (py_exception + int) \<times> world" where
  "run_tool which subprocess_run tool config model dry_run extra w =
     (case build_command tool config model extra of
        Inl e \<Rightarrow> (Inl e, w)
      | Inr command \<Rightarrow>
          (let w1 = print (''[benchmark] Tool     : '' @ tool) w;
               w2 = print (''[benchmark] Config   : '' @ config) w1;
               w3 = (case model of
                       Some m \<Rightarrow> (if m \<noteq> [] then print (''[benchmark] Model    : '' @ m) w2 else w2)
                     | None \<Rightarrow> w2);
               w4 = print (''[benchmark] Extra    : '' @
                             (if extra \<noteq> [] then join '' '' extra else ''(none)'')) w3;
               w5 = print (''[benchmark] Command  : '' @ join '' '' command) w4
           in if dry_run then
                (Inr 0, print ''[benchmark] Dry run requested. Command not executed.'' w5)
              else if \<not> command_available which command then
                (Inr 127,
                 print (''[benchmark] ERROR    : Executable not found on PATH. '' @
                        ''Install the relevant framework or run with --dry-run.'') w5)
              else
                (let w6 = w5\<lparr>spawned := spawned w5 @ [command]\<rparr>;
                     returncode = subprocess_run command
                 in (Inr returncode,
                     print (''[benchmark] Exit code: '' @ str_int returncode) w6))))"

section \<open>Numbers\<close>

text \<open>
  A Python \<^verbatim>\<open>float\<close>. A finite float is represented by the rational number it denotes;
  the three special values that \<^verbatim>\<open>json.loads\<close> produces from the literals
  \<^verbatim>\<open>Infinity\<close>, \<^verbatim>\<open>-Infinity\<close> and \<^verbatim>\<open>NaN\<close> are kept as they are. Arithmetic on finite
  values is exact here: the rounding of binary floating point, its overflow on finite
  operands and the sign of zero are outside this model.
\<close>

datatype pyfloat = Finite rat | PosInf | NegInf | NaN

text \<open>
  \<^verbatim>\<open>float(n)\<close> for a Python \<^verbatim>\<open>int\<close>: integers of magnitude \<open>2^1024 - 2^970\<close> and above
  round beyond the largest double and raise \<^verbatim>\<open>OverflowError\<close>.
\<close>

definition float_of_int :: "int \<Rightarrow> py_exception + pyfloat" where
  "float_of_int n =
     (if 2 ^ 1024 - 2 ^ 970 \<le> \<bar>n\<bar> then Inl (OverflowError ''int too large to convert to float'')
      else Inr (Finite (of_int n)))"

text \<open>The comparison \<^verbatim>\<open>x < y\<close> of two floats: every comparison with \<^verbatim>\<open>nan\<close> is false.\<close>

fun flt :: "pyfloat \<Rightarrow> pyfloat \<Rightarrow> bool" where
  "flt NaN y = False"
| "flt x NaN = False"
| "flt (Finite a) (Finite b) = (a < b)"
| "flt (Finite a) PosInf = True"
| "flt (Finite a) NegInf = False"
| "flt PosInf y = False"
| "flt NegInf NegInf = False"
| "flt NegInf y = True"

text \<open>
  The builtins \<^verbatim>\<open>min\<close> and \<^verbatim>\<open>max\<close> on a list: the running result starts with the
  first item and is replaced by an item that compares smaller (greater) than it.
\<close>

fun py_min :: "pyfloat list \<Rightarrow> py_exception + pyfloat" where
  "py_min [] = Inl (ValueError ''min() arg is an empty sequence'')"
| "py_min (x # xs) = Inr (foldl (\<lambda>cur item. if flt item cur then item else cur) x xs)"

fun py_max :: "pyfloat list \<Rightarrow> py_exception + pyfloat" where
  "py_max [] = Inl (ValueError ''max() arg is an empty sequence'')"
| "py_max (x # xs) = Inr (foldl (\<lambda>cur item. if flt cur item then item else cur) x xs)"

text \<open>
  \<^verbatim>\<open>math.fsum\<close>, which \<^verbatim>\<open>statistics.fmean\<close> calls: both infinities among the summands
  raise \<^verbatim>\<open>ValueError\<close>; otherwise a \<^verbatim>\<open>nan\<close> gives \<^verbatim>\<open>nan\<close>, an infinity gives that
  infinity, and finite summands give their sum.
\<close>

fun finite_val :: "pyfloat \<Rightarrow> rat" where
  "finite_val (Finite q) = q"
| "finite_val x = 0"

definition fsum :: "pyfloat list \<Rightarrow> py_exception + pyfloat" where
  "fsum xs =
     (if PosInf \<in> set xs \<and> NegInf \<in> set xs then Inl (ValueError ''-inf + inf in fsum'')
      else if NaN \<in> set xs then Inr NaN
      else if PosInf \<in> set xs then Inr PosInf
      else if NegInf \<in> set xs then Inr NegInf
      else Inr (Finite (sum_list (map finite_val xs))))"

text \<open>Division of a float by a positive count.\<close>

fun fdiv :: "pyfloat \<Rightarrow> nat \<Rightarrow> pyfloat" where
  "fdiv (Finite q) n = Finite (q / of_nat n)"
| "fdiv x n = x"

definition fmean :: "pyfloat list \<Rightarrow> py_exception + pyfloat" where
  "fmean xs =
     (case fsum xs of
        Inl e \<Rightarrow> Inl e
      | Inr total_sum \<Rightarrow>
          (if length xs = 0 then Inl (StatisticsError ''fmean requires at least one data point'')
           else Inr (fdiv total_sum (length xs))))"

section \<open>Parsed documents and the metric series\<close>

text \<open>
  What \<^verbatim>\<open>json.loads\<close> and \<^verbatim>\<open>yaml.safe_load\<close> return. A mapping is the list of its items in
  iteration order; a key is the text \<^verbatim>\<open>f"{key}"\<close> renders.
\<close>

datatype json =
    JNull
  | JBool bool
  | JInt int
  | JFloat pyfloat
  | JStr string
  | JList "json list"
  | JObj "(string \<times> json) list"

text \<open>
  \<^verbatim>\<open>metrics\<close> is a \<^verbatim>\<open>defaultdict(list)\<close>: the list of its items in insertion order.
  \<open>getitem\<close> is \<^verbatim>\<open>metrics[key]\<close>, which inserts an empty list under a missing key and
  returns the list held under the key.
\<close>

type_synonym metrics = "(string \<times> pyfloat list) list"

definition getitem :: "string \<Rightarrow> metrics \<Rightarrow> pyfloat list \<times> metrics" where
  "getitem key m =
     (case map_of m key of
        None \<Rightarrow> ([], AList.update key [] m)
      | Some values \<Rightarrow> (values, m))"

text \<open>\<^verbatim>\<open>prefix.rstrip(".")\<close> removes every trailing dot.\<close>

definition rstrip_dot :: "string \<Rightarrow> string" where
  "rstrip_dot s = rev (dropWhile (\<lambda>c. c = CHR ''.'') (rev s))"

text \<open>
  \<^verbatim>\<open>metrics[prefix.rstrip(".")].append(float(payload))\<close>: the subscript is evaluated
  before the argument, so the key is in the dictionary even when \<^verbatim>\<open>float\<close> raises.
\<close>

definition record_sample ::
  "string \<Rightarrow> py_exception + pyfloat \<Rightarrow> metrics \<Rightarrow> py_exception option \<times> metrics" where
  "record_sample prefix converted m =
     (let key = rstrip_dot prefix;
          (values, m1) = getitem key m
      in case converted of
           Inl e \<Rightarrow> (Some e, m1)
         | Inr x \<Rightarrow> (None, AList.update key (values @ [x]) m1))"

text \<open>
  \<^verbatim>\<open>collect_numeric\<close>, with its two loops: \<open>collect_items\<close> over the items of a mapping and
  \<open>collect_elems\<close> over the enumerated elements of a list. The result is the exception
  that left the traversal, if any, and the dictionary as the traversal left it.
\<close>

function collect_numeric :: "json \<Rightarrow> string \<Rightarrow> metrics \<Rightarrow> py_exception option \<times> metrics"
  and collect_items ::
    "(string \<times> json) list \<Rightarrow> string \<Rightarrow> metrics \<Rightarrow> py_exception option \<times> metrics"
  and collect_elems ::
    "json list \<Rightarrow> nat \<Rightarrow> string \<Rightarrow> metrics \<Rightarrow> py_exception option \<times> metrics"
where
  "collect_numeric (JObj items) prefix m = collect_items items prefix m"
| "collect_numeric (JList xs) prefix m = collect_elems xs 0 prefix m"
| "collect_numeric (JInt n) prefix m = record_sample prefix (float_of_int n) m"
| "collect_numeric (JFloat x) prefix m = record_sample prefix (Inr x) m"
| "collect_numeric (JBool b) prefix m = (None, m)"
| "collect_numeric (JStr s) prefix m = (None, m)"
| "collect_numeric JNull prefix m = (None, m)"
| "collect_items [] prefix m = (None, m)"
| "collect_items ((key, value) # rest) prefix m =
     (case collect_numeric value (prefix @ key @ ''.'') m of
        (Some e, m1) \<Rightarrow> (Some e, m1)
      | (None, m1) \<Rightarrow> collect_items rest prefix m1)"
| "collect_elems [] idx prefix m = (None, m)"
| "collect_elems (value # rest) idx prefix m =
     (case collect_numeric value (prefix @ str_nat idx @ ''.'') m of
        (Some e, m1) \<Rightarrow> (Some e, m1)
      | (None, m1) \<Rightarrow> collect_elems rest (Suc idx) prefix m1)"
  by pat_completeness auto

termination
  by (relation "measure (\<lambda>a. case a of
         Inl (payload, _, _) \<Rightarrow> 2 * size payload
       | Inr (Inl (items, _, _)) \<Rightarrow> 2 * size_list (size_prod (\<lambda>_. 0) size) items + 1
       | Inr (Inr (xs, _, _, _)) \<Rightarrow> 2 * size_list size xs + 1)") auto

section \<open>Artifact files\<close>

text \<open>
  One path that \<^verbatim>\<open>directory.rglob("*")\<close> yields: its text \<^verbatim>\<open>str(path)\<close>, what
  \<^verbatim>\<open>path.is_dir()\<close> and \<^verbatim>\<open>path.suffix\<close> return, and what \<^verbatim>\<open>path.read_text()\<close> returns or
  raises. A directory is the list of its paths in the order the file system enumerates
  them.
\<close>

record artifact =
  path :: string
  is_dir :: bool
  suffix :: string
  read_text :: "py_exception + string"

text \<open>
  \<^verbatim>\<open>str.splitlines\<close>: a line ends at a line feed, a carriage return (with the line feed
  that follows it, if any), a vertical tab, a form feed, a file, group or record
  separator, or a next-line character; the separators are dropped and an empty last line
  is not reported.
\<close>

definition line_boundary :: "char \<Rightarrow> bool" where
  "line_boundary c = (of_char c \<in> {10, 11, 12, 13, 28, 29, 30, 133 :: nat})"

fun splitlines_from :: "string \<Rightarrow> string \<Rightarrow> string list" where
  "splitlines_from cur [] = (if cur = [] then [] else [cur])"
| "splitlines_from cur [c] =
     (if line_boundary c then [cur] else [cur @ [c]])"
| "splitlines_from cur (c # d # rest) =
     (if c = CHR 0x0D \<and> d = CHR 0x0A then cur # splitlines_from [] rest
      else if line_boundary c then cur # splitlines_from [] (d # rest)
      else splitlines_from (cur @ [c]) (d # rest))"

definition splitlines :: "string \<Rightarrow> string list" where
  "splitlines text = splitlines_from [] text"

text \<open>\<^verbatim>\<open>str.strip\<close> removes leading and trailing whitespace.\<close>

definition is_space :: "char \<Rightarrow> bool" where
  "is_space c = (of_char c \<in> {9, 10, 11, 12, 13, 28, 29, 30, 31, 32, 133, 160 :: nat})"

definition strip :: "string \<Rightarrow> string" where
  "strip s = rev (dropWhile is_space (rev (dropWhile is_space s)))"

text \<open>
  The decoders are parameters: \<open>json_loads\<close> is \<^verbatim>\<open>json.loads\<close>, and \<open>yaml\<close> is
  \<^verbatim>\<open>yaml.safe_load\<close> when the module could be imported and \<open>None\<close> when it could not.
\<close>

type_synonym decoder = "string \<Rightarrow> py_exception + json"

text \<open>The loop over the lines of a \<^verbatim>\<open>.jsonl\<close> file.\<close>

fun scan_lines :: "decoder \<Rightarrow> string list \<Rightarrow> metrics \<Rightarrow> py_exception option \<times> metrics" where
  "scan_lines json_loads [] m = (None, m)"
| "scan_lines json_loads (line # rest) m =
     (if strip line = [] then scan_lines json_loads rest m
      else case json_loads line of
             Inl e \<Rightarrow> (Some e, m)
           | Inr data \<Rightarrow>
               (case collect_numeric data [] m of
                  (Some e, m1) \<Rightarrow> (Some e, m1)
                | (None, m1) \<Rightarrow> scan_lines json_loads rest m1))"

text \<open>\<^verbatim>\<open>data = decode(path.read_text()); collect_numeric(data)\<close>.\<close>

definition scan_document ::
  "decoder \<Rightarrow> artifact \<Rightarrow> metrics \<Rightarrow> py_exception option \<times> metrics" where
  "scan_document decode p m =
     (case read_text p of
        Inl e \<Rightarrow> (Some e, m)
      | Inr text \<Rightarrow>
          (case decode text of
             Inl e \<Rightarrow> (Some e, m)
           | Inr data \<Rightarrow> collect_numeric data [] m))"

text \<open>The body of the \<^verbatim>\<open>try\<close> statement for one file.\<close>

definition scan_file ::
  "decoder \<Rightarrow> decoder option \<Rightarrow> artifact \<Rightarrow> metrics \<Rightarrow> py_exception option \<times> metrics" where
  "scan_file json_loads yaml p m =
     (if suffix p = ''.json'' then scan_document json_loads p m
      else if suffix p = ''.jsonl'' then
        (case read_text p of
           Inl e \<Rightarrow> (Some e, m)
         | Inr text \<Rightarrow> scan_lines json_loads (splitlines text) m)
      else if suffix p \<in> {''.yml'', ''.yaml''} \<and> yaml \<noteq> None then
        (case yaml of
           Some safe_load \<Rightarrow> scan_document safe_load p m
         | None \<Rightarrow> (None, m))
      else (None, m))"

definition skipping :: "artifact \<Rightarrow> py_exception \<Rightarrow> string" where
  "skipping p exc = ''[summarize] Skipping '' @ path p @ '' ('' @ exc_str exc @ '')''"

text \<open>
  The loop over the paths. The state is the dictionary \<^verbatim>\<open>metrics\<close> and the lines written
  to the standard error stream.
\<close>

fun scan :: "decoder \<Rightarrow> decoder option \<Rightarrow> artifact list \<Rightarrow> metrics \<times> string list \<Rightarrow>
    metrics \<times> string list" where
  "scan json_loads yaml [] st = st"
| "scan json_loads yaml (p # ps) (m, err) =
     (if is_dir p then scan json_loads yaml ps (m, err)
      else case scan_file json_loads yaml p m of
             (Some exc, m1) \<Rightarrow> scan json_loads yaml ps (m1, err @ [skipping p exc])
           | (None, m1) \<Rightarrow> scan json_loads yaml ps (m1, err))"

section \<open>Summaries\<close>

record metric_summary =
  stat_count :: pyfloat
  stat_mean :: pyfloat
  stat_min :: pyfloat
  stat_max :: pyfloat

text \<open>
  The dictionary literal of the summary loop; its four values are evaluated in the order
  of the source.
\<close>

definition series_summary :: "pyfloat list \<Rightarrow> py_exception + metric_summary" where
  "series_summary values =
     (case fmean values of
        Inl e \<Rightarrow> Inl e
      | Inr mu \<Rightarrow>
          (case py_min values of
             Inl e \<Rightarrow> Inl e
           | Inr lo \<Rightarrow>
               (case py_max values of
                  Inl e \<Rightarrow> Inl e
                | Inr hi \<Rightarrow>
                    Inr \<lparr>stat_count = Finite (of_nat (length values)), stat_mean = mu,
                         stat_min = lo, stat_max = hi\<rparr>)))"

type_synonym summary = "(string \<times> metric_summary) list"

fun build_summary :: "metrics \<Rightarrow> summary \<Rightarrow> py_exception + summary" where
  "build_summary [] summary = Inr summary"
| "build_summary ((name, values) # rest) summary =
     (if values = [] then build_summary rest summary
      else case series_summary values of
             Inl e \<Rightarrow> Inl e
           | Inr stats \<Rightarrow> build_summary rest (AList.update name stats summary))"

text \<open>
  \<^verbatim>\<open>summarize_artifacts\<close>: the summary, or the exception that the statistics raised, and
  the diagnostics written while scanning.
\<close>

definition summarize_artifacts ::
  "decoder \<Rightarrow> decoder option \<Rightarrow> artifact list \<Rightarrow> (py_exception + summary) \<times> string list" where
  "summarize_artifacts json_loads yaml directory =
     (case scan json_loads yaml directory ([], []) of
        (metrics, err) \<Rightarrow> (build_summary metrics [], err))"

section \<open>Rendering and the entry point\<close>

definition ljust :: "nat \<Rightarrow> string \<Rightarrow> string" where
  "ljust n s = s @ replicate (n - length s) CHR '' ''"

definition rjust :: "nat \<Rightarrow> string \<Rightarrow> string" where
  "rjust n s = replicate (n - length s) CHR '' '' @ s"

definition header :: string where
  "header = ljust 40 ''Metric'' @ '' | '' @ rjust 5 ''Count'' @ '' | '' @ rjust 8 ''Mean'' @
            '' | '' @ rjust 8 ''Min'' @ '' | '' @ rjust 8 ''Max''"

definition no_metrics :: string where
  "no_metrics = ''[summarize] No numeric metrics discovered in artifacts.''"

text \<open>
  \<^verbatim>\<open>print_summary_table\<close>, as the list of lines it prints. The text of one row (the
  formatted name, count, mean, minimum and maximum) is the parameter \<open>format_row\<close>: the
  decimal formatting of floats is not modelled. The names come from \<^verbatim>\<open>sorted(summary)\<close>,
  so the lookup \<^verbatim>\<open>summary[metric_name]\<close> always finds its entry.
\<close>

definition print_summary_table ::
  "(string \<Rightarrow> metric_summary \<Rightarrow> string) \<Rightarrow> summary \<Rightarrow> string list" where
  "print_summary_table format_row summary =
     (if summary = [] then [no_metrics]
      else [header, replicate (length header) CHR ''-''] @
           concat (map (\<lambda>metric_name.
                          case map_of summary metric_name of
                            Some stats \<Rightarrow> [format_row metric_name stats]
                          | None \<Rightarrow> [])
                       (sort (map fst summary))))"

text \<open>
  What \<^verbatim>\<open>main\<close> needs from outside: the file system (\<^verbatim>\<open>Path.exists\<close>, \<^verbatim>\<open>Path.rglob\<close>),
  the search path, the child process, the clock (the text of the time stamp), the
  decoders and the row formatter.
\<close>

record environment =
  env_exists :: "string \<Rightarrow> bool"
  env_rglob :: "string \<Rightarrow> artifact list"
  env_which :: "string \<Rightarrow> bool"
  env_subprocess_run :: "string list \<Rightarrow> int"
  env_timestamp :: string
  env_json_loads :: decoder
  env_yaml :: "decoder option"
  env_format_row :: "string \<Rightarrow> metric_summary \<Rightarrow> string"

text \<open>The namespace that \<^verbatim>\<open>parser.parse_args\<close> returns, by sub-command.\<close>

datatype cli_args =
    Run string string "string option" "string list" bool string
  | Summarize string
  | NoCommand

text \<open>
  How \<^verbatim>\<open>main\<close> ends: it returns an exit code, an exception leaves it, or
  \<^verbatim>\<open>parser.error\<close> ends the process with status 2 and a message.
\<close>

datatype outcome = Returned int | Raised py_exception | ParserError string

definition eprint :: "string list \<Rightarrow> world \<Rightarrow> world" where
  "eprint lines w = w\<lparr>stderr := stderr w @ lines\<rparr>"

definition ensure_output_directory :: "environment \<Rightarrow> string \<Rightarrow> string \<Rightarrow> world \<Rightarrow> string \<times> world" where
  "ensure_output_directory env base tool w =
     (let run_dir = base @ ''/'' @ tool @ ''/'' @ env_timestamp env
      in (run_dir, w\<lparr>created_dirs := created_dirs w @ [run_dir]\<rparr>))"

text \<open>
  \<^verbatim>\<open>main\<close> after \<^verbatim>\<open>parse_args\<close>. The parser itself rejects a \<^verbatim>\<open>--tool\<close> outside
  \<^verbatim>\<open>choices=sorted(TOOL_COMMANDS)\<close>.
\<close>

definition main :: "environment \<Rightarrow> cli_args \<Rightarrow> world \<Rightarrow> outcome \<times> world" where
  "main env args w =
     (case args of
        Run tool config model extra dry_run artifacts \<Rightarrow>
          (if tool \<notin> set sorted_tools then
             (ParserError (''argument --tool: invalid choice: '' @ squote @ tool @ squote), w)
           else if \<not> env_exists env config then
             (ParserError (''Configuration file '' @ squote @ config @ squote @
                           '' does not exist.''), w)
           else
             (case ensure_output_directory env artifacts tool w of
                (run_dir, w1) \<Rightarrow>
                  (case run_tool (env_which env) (env_subprocess_run env) tool config model
                          dry_run extra
                          (print (''[benchmark] Outputs will be saved under: '' @ run_dir) w1) of
                     (Inl e, w2) \<Rightarrow> (Raised e, w2)
                   | (Inr code, w2) \<Rightarrow> (Returned code, w2))))
      | Summarize directory \<Rightarrow>
          (if \<not> env_exists env directory then
             (ParserError (''Artifact directory '' @ squote @ directory @ squote @
                           '' does not exist.''), w)
           else
             (case summarize_artifacts (env_json_loads env) (env_yaml env)
                     (env_rglob env directory) of
                (Inl e, err) \<Rightarrow> (Raised e, eprint err w)
              | (Inr summary, err) \<Rightarrow>
                  (Returned 0,
                   (eprint err w)\<lparr>stdout := stdout w @
                      print_summary_table (env_format_row env) summary\<rparr>)))
      | NoCommand \<Rightarrow> (ParserError (''Unknown command '' @ squote @ ''None'' @ squote), w))"

section \<open>Vocabulary of the properties\<close>

text \<open>
  The numeric leaves of a document in traversal order, each with the mapping keys and
  list indices on the way from the root, and as the float the traversal records for it.
\<close>

function numeric_leaves :: "json \<Rightarrow> (string list \<times> pyfloat) list"
  and numeric_items :: "(string \<times> json) list \<Rightarrow> (string list \<times> pyfloat) list"
  and numeric_elems :: "json list \<Rightarrow> nat \<Rightarrow> (string list \<times> pyfloat) list"
where
  "numeric_leaves (JObj items) = numeric_items items"
| "numeric_leaves (JList xs) = numeric_elems xs 0"
| "numeric_leaves (JInt n) = [([], Finite (of_int n))]"
| "numeric_leaves (JFloat x) = [([], x)]"
| "numeric_leaves (JBool b) = []"
| "numeric_leaves (JStr s) = []"
| "numeric_leaves JNull = []"
| "numeric_items [] = []"
| "numeric_items ((key, value) # rest) =
     map (\<lambda>(p, x). (key # p, x)) (numeric_leaves value) @ numeric_items rest"
| "numeric_elems [] idx = []"
| "numeric_elems (value # rest) idx =
     map (\<lambda>(p, x). (str_nat idx # p, x)) (numeric_leaves value) @ numeric_elems rest (Suc idx)"
  by pat_completeness auto

termination
  by (relation "measure (\<lambda>a. case a of
         Inl payload \<Rightarrow> 2 * size payload
       | Inr (Inl items) \<Rightarrow> 2 * size_list (size_prod (\<lambda>_. 0) size) items + 1
       | Inr (Inr (xs, _)) \<Rightarrow> 2 * size_list size xs + 1)") auto

text \<open>The dotted path: the keys and indices joined by dots.\<close>

definition dotted :: "string list \<Rightarrow> string" where
  "dotted p = join ''.'' p"

text \<open>The samples held under a name; a name that is no key has none.\<close>

definition series :: "metrics \<Rightarrow> string \<Rightarrow> pyfloat list" where
  "series m name = (case map_of m name of None \<Rightarrow> [] | Some values \<Rightarrow> values)"

text \<open>
  The samples among \<open>leaves\<close> that a traversal started with \<open>prefix\<close> files under \<open>name\<close>.
\<close>

definition recorded :: "string \<Rightarrow> (string list \<times> pyfloat) list \<Rightarrow> string \<Rightarrow> pyfloat list" where
  "recorded prefix leaves name =
     map snd (filter (\<lambda>(p, x). rstrip_dot (prefix @ concat (map (\<lambda>c. c @ ''.'') p)) = name) leaves)"

text \<open>The dictionary invariant: no key occurs twice.\<close>

definition keys_distinct :: "metrics \<Rightarrow> bool" where
  "keys_distinct m = distinct (map fst m)"

text \<open>
  A step on the dictionary is additive when its exception and the samples it appends do
  not depend on the dictionary it starts from, and it keeps the keys distinct.
\<close>

definition additive :: "(metrics \<Rightarrow> py_exception option \<times> metrics) \<Rightarrow> bool" where
  "additive f \<longleftrightarrow>
     (\<forall>m. fst (f m) = fst (f []) \<and>
          (\<forall>k. series (snd (f m)) k = series m k @ series (snd (f [])) k) \<and>
          (keys_distinct m \<longrightarrow> keys_distinct (snd (f m))))"

text \<open>What one path adds to a series: the samples its scan records, starting from nothing.\<close>

definition file_series :: "decoder \<Rightarrow> decoder option \<Rightarrow> artifact \<Rightarrow> string \<Rightarrow> pyfloat list" where
  "file_series json_loads yaml p name =
     (if is_dir p then [] else series (snd (scan_file json_loads yaml p [])) name)"

text \<open>The diagnostic one path produces: one line when its scan raises.\<close>

definition file_log :: "decoder \<Rightarrow> decoder option \<Rightarrow> artifact \<Rightarrow> string list" where
  "file_log json_loads yaml p =
     (if is_dir p then []
      else case fst (scan_file json_loads yaml p []) of
             Some exc \<Rightarrow> [skipping p exc]
           | None \<Rightarrow> [])"

text \<open>Two steps in sequence, the second skipped when the first raises.\<close>

definition seq ::
  "(metrics \<Rightarrow> py_exception option \<times> metrics) \<Rightarrow> (metrics \<Rightarrow> py_exception option \<times> metrics) \<Rightarrow>
   metrics \<Rightarrow> py_exception option \<times> metrics" where
  "seq f g m = (case f m of (Some e, m1) \<Rightarrow> (Some e, m1) | (None, m1) \<Rightarrow> g m1)"

text \<open>The only exception the statistics of a non-empty series can raise.\<close>

definition inf_error :: py_exception where
  "inf_error = ValueError ''-inf + inf in fsum''"

text \<open>The summary of the series under a name, when the series is non-empty and its statistics exist.\<close>

definition summary_of :: "metrics \<Rightarrow> string \<Rightarrow> metric_summary option" where
  "summary_of m name =
     (if series m name = [] then None
      else case series_summary (series m name) of Inl e \<Rightarrow> None | Inr stats \<Rightarrow> Some stats)"

text \<open>A series holds both infinities.\<close>

definition mixed_inf :: "pyfloat list \<Rightarrow> bool" where
  "mixed_inf values \<longleftrightarrow> PosInf \<in> set values \<and> NegInf \<in> set values"

text \<open>The dictionary \<^verbatim>\<open>metrics\<close> after the loop over the paths.\<close>

definition collected :: "decoder \<Rightarrow> decoder option \<Rightarrow> artifact list \<Rightarrow> metrics" where
  "collected json_loads yaml directory = fst (scan json_loads yaml directory ([], []))"


section \<open>Example inputs\<close>

definition world0 :: world where
  "world0 = \<lparr>stdout = [], stderr = [], spawned = [], created_dirs = []\<rparr>"

text \<open>
  A decoder that agrees with \<^verbatim>\<open>json.loads\<close> on the texts used in the examples below; on
  every other text it raises the error \<^verbatim>\<open>json.loads\<close> raises for a text that does not
  start a JSON value.
\<close>

definition example_loads :: decoder where
  \<open>example_loads s =
     (if s = ''{"a": {"b": 1, "c": 2.5}}'' then
        Inr (JObj [(''a'', JObj [(''b'', JInt 1), (''c'', JFloat (Finite (5 / 2)))])])
      else if s = ''{"x": 1}'' then Inr (JObj [(''x'', JInt 1)])
      else if s = ''{"x": 3}'' then Inr (JObj [(''x'', JInt 3)])
      else if s = ''{"x": NaN}'' then Inr (JObj [(''x'', JFloat NaN)])
      else if s = ''{"x": [Infinity, -Infinity]}'' then
        Inr (JObj [(''x'', JList [JFloat PosInf, JFloat NegInf])])
      else if s = ''{"flag": true, "name": "ok"}'' then
        Inr (JObj [(''flag'', JBool True), (''name'', JStr ''ok'')])
      else Inl (LibraryError ''Expecting value: line 1 column 1 (char 0)''))\<close>

text \<open>A regular file with the given path, suffix and text.\<close>

definition regular_file :: "string \<Rightarrow> string \<Rightarrow> string \<Rightarrow> artifact" where
  "regular_file name ext text = \<lparr>path = name, is_dir = False, suffix = ext, read_text = Inr text\<rparr>"

definition newline :: string where
  "newline = [CHR 0x0A]"

definition one_json :: artifact where
  \<open>one_json = regular_file ''runs/one.json'' ''.json'' ''{"x": 1}''\<close>


definition lines_text :: string where
  \<open>lines_text = ''{"x": 3}'' @ newline @ newline @ ''{"x": 1}'' @ newline\<close>


definition lines_jsonl :: artifact where
  "lines_jsonl = regular_file ''runs/lines.jsonl'' ''.jsonl'' lines_text"



definition flag_doc :: json where
  "flag_doc = JObj [(''flag'', JBool True), (''name'', JStr ''ok'')]"

definition flag_json :: artifact where
  \<open>flag_json = regular_file ''runs/flag.json'' ''.json'' ''{"flag": true, "name": "ok"}''\<close>

text \<open>
  An environment in which the directory \<^verbatim>\<open>runs\<close> exists and holds one file, no executable
  is on the search path, and a row of the table is rendered by the metric name alone.
\<close>

definition example_env :: environment where
  "example_env =
     \<lparr>env_exists = (\<lambda>p. p = ''runs''),
      env_rglob = (\<lambda>d. if d = ''runs'' then [flag_json] else []),
      env_which = (\<lambda>exe. False),
      env_subprocess_run = (\<lambda>command. 0),
      env_timestamp = ''20240101T000000Z'',
      env_json_loads = example_loads,
      env_yaml = None,
      env_format_row = (\<lambda>metric_name stats. metric_name)\<rparr>"

definition accuracy_doc :: json where
  "accuracy_doc = JObj [(''results'', JList [JObj [(''accuracy'', JFloat (Finite (9 / 10)))]])]"

section \<open>Properties of the command builder and runner\<close>

lemma map_of_TOOL_COMMANDS:
  "map_of TOOL_COMMANDS tool = Some meta \<Longrightarrow>
     model_flag meta = Some ''--model'' \<and>
     (tool = ''openai-evals'' \<and> executable meta = [''oaieval'', ''run''] \<and> config_flag meta = None \<or>
      tool = ''helm'' \<and> executable meta = [''helm-run''] \<and> config_flag meta = Some ''--config'' \<or>
      tool = ''lm-eval'' \<and> executable meta = [''lm_eval''] \<and> config_flag meta = Some ''--config'')"
  by (auto simp: TOOL_COMMANDS_def split: if_splits)

lemma sorted_tools_eq: "sorted_tools = [''helm'', ''lm-eval'', ''openai-evals'']"
  unfolding sorted_tools_def TOOL_COMMANDS_def by code_simp

lemma set_sorted_tools: "set sorted_tools = fst ` set TOOL_COMMANDS"
  by (simp add: sorted_tools_def)

lemma unsupported_tool_text:
  "unsupported_tool tool =
     ValueError (''Unsupported tool '' @ squote @ tool @ squote @ ''. Expected one of ['' @
       squote @ ''helm'' @ squote @ '', '' @ squote @ ''lm-eval'' @ squote @ '', '' @
       squote @ ''openai-evals'' @ squote @ '']'')"
  by (simp add: unsupported_tool_def repr_str_list_def sorted_tools_eq)

text \<open>
  Claim C8. For a tool identifier that is not a key of \<^verbatim>\<open>TOOL_COMMANDS\<close>,
  \<^verbatim>\<open>build_command\<close> raises a \<^verbatim>\<open>ValueError\<close> whose message names the tool and lists the
  supported ones; no command is built. \<^verbatim>\<open>run_tool\<close> passes the error on with nothing
  printed and no process started, and \<^verbatim>\<open>main\<close> leaves the world as it found it: no
  directory is created.
\<close>

theorem build_command_unknown_tool:
  assumes "tool \<notin> fst ` set TOOL_COMMANDS"
  shows "build_command tool config model extra =
           Inl (ValueError (''Unsupported tool '' @ squote @ tool @ squote @
                  ''. Expected one of ['' @ squote @ ''helm'' @ squote @ '', '' @
                  squote @ ''lm-eval'' @ squote @ '', '' @
                  squote @ ''openai-evals'' @ squote @ '']''))
       \<and> run_tool which subprocess_run tool config model dry_run extra w =
           (Inl (unsupported_tool tool), w)
       \<and> snd (main env (Run tool config model extra dry_run artifacts) w) = w"
proof -
  from assms have none: "map_of TOOL_COMMANDS tool = None"
    by (simp add: map_of_eq_None_iff)
  then have b: "build_command tool config model extra = Inl (unsupported_tool tool)"
    by (simp add: build_command_def)
  moreover have "run_tool which subprocess_run tool config model dry_run extra w =
           (Inl (unsupported_tool tool), w)"
    by (simp add: run_tool_def b)
  moreover from assms have "snd (main env (Run tool config model extra dry_run artifacts) w) = w"
    by (simp add: main_def set_sorted_tools)
  ultimately show ?thesis
    by (simp add: unsupported_tool_text)
qed

theorem build_command_unknown_tool_witness:
  "''mmlu'' \<notin> fst ` set TOOL_COMMANDS
   \<and> build_command ''mmlu'' ''cfg.yaml'' (Some ''gpt'') [''--limit'', ''5''] =
        Inl (ValueError (''Unsupported tool '' @ squote @ ''mmlu'' @ squote @
                  ''. Expected one of ['' @ squote @ ''helm'' @ squote @ '', '' @
                  squote @ ''lm-eval'' @ squote @ '', '' @
                  squote @ ''openai-evals'' @ squote @ '']''))
   \<and> run_tool (\<lambda>exe. True) (\<lambda>command. 0) ''mmlu'' ''cfg.yaml'' (Some ''gpt'') False
        [''--limit'', ''5''] world0 = (Inl (unsupported_tool ''mmlu''), world0)"
proof -
  have h: "''mmlu'' \<notin> fst ` set TOOL_COMMANDS"
    by (simp add: TOOL_COMMANDS_def)
  from build_command_unknown_tool [OF h] h show ?thesis
    by blast
qed

text \<open>
  Claim C7, as amended. For every profile of \<^verbatim>\<open>TOOL_COMMANDS\<close>: without a model, and
  with the empty string as model, the command is the executable, the configuration part
  and the extra arguments, with nothing added; the flag \<^verbatim>\<open>--model\<close> occurs in the
  executable and configuration part only if it is the configuration path itself. With a
  non-empty model the two items \<^verbatim>\<open>--model\<close> and the model, in this order, stand between
  the configuration part and the extra arguments.
\<close>

theorem build_command_model:
  assumes "map_of TOOL_COMMANDS tool = Some meta"
  shows "build_command tool config None extra =
           Inr (add_config meta config (executable meta) @ extra)
       \<and> build_command tool config (Some []) extra =
           Inr (add_config meta config (executable meta) @ extra)
       \<and> (config \<noteq> ''--model'' \<longrightarrow> ''--model'' \<notin> set (add_config meta config (executable meta)))
       \<and> model_flag meta = Some ''--model''
       \<and> (m \<noteq> [] \<longrightarrow>
            build_command tool config (Some m) extra =
              Inr (add_config meta config (executable meta) @ [''--model'', m] @ extra))"
  using map_of_TOOL_COMMANDS [OF assms] assms
  by (auto simp: build_command_def add_model_def add_config_def)

theorem build_command_model_witness:
  "map_of TOOL_COMMANDS ''helm'' =
     Some \<lparr>executable = [''helm-run''], config_flag = Some ''--config'', model_flag = Some ''--model''\<rparr>
   \<and> build_command ''helm'' ''cfg.yaml'' None [''--limit'', ''5''] =
        Inr [''helm-run'', ''--config'', ''cfg.yaml'', ''--limit'', ''5'']
   \<and> ''gpt'' \<noteq> []
   \<and> build_command ''helm'' ''cfg.yaml'' (Some ''gpt'') [''--limit'', ''5''] =
        Inr [''helm-run'', ''--config'', ''cfg.yaml'', ''--model'', ''gpt'', ''--limit'', ''5'']"
proof -
  have h: "map_of TOOL_COMMANDS ''helm'' =
     Some \<lparr>executable = [''helm-run''], config_flag = Some ''--config'', model_flag = Some ''--model''\<rparr>"
    by (simp add: TOOL_COMMANDS_def)
  from build_command_model [OF h, of "''cfg.yaml''" "[''--limit'', ''5'']" "''gpt''"] h
  show ?thesis
    by (simp add: add_config_def)
qed

text \<open>
  The claim as first stated (a supplied model is always inserted after the model flag)
  fails for the empty string, which \<^verbatim>\<open>if model and meta["model_flag"]\<close> treats as no model.
\<close>

theorem build_command_empty_model_counterexample:
  "build_command ''helm'' ''cfg.yaml'' (Some '''') [] = Inr [''helm-run'', ''--config'', ''cfg.yaml'']"
  by (simp add: build_command_def TOOL_COMMANDS_def add_model_def add_config_def)

text \<open>
  Claim C10, as amended. For every supported tool, \<^verbatim>\<open>run_tool\<close> with \<^verbatim>\<open>dry_run=True\<close>
  returns 0, starts no process and creates no directory, whatever the search path says
  about the executable; a result of 127 is only possible when \<^verbatim>\<open>dry_run\<close> is false.
\<close>

theorem run_tool_dry_run:
  assumes "tool \<in> fst ` set TOOL_COMMANDS"
  shows "fst (run_tool which subprocess_run tool config model True extra w) = Inr 0
       \<and> spawned (snd (run_tool which subprocess_run tool config model True extra w)) = spawned w
       \<and> created_dirs (snd (run_tool which subprocess_run tool config model True extra w)) = created_dirs w
       \<and> (fst (run_tool which subprocess_run tool config model dry_run extra w) = Inr 127 \<longrightarrow> \<not> dry_run)"
proof -
  from assms obtain meta where "map_of TOOL_COMMANDS tool = Some meta"
    by (metis map_of_eq_None_iff not_Some_eq)
  then obtain command where c: "build_command tool config model extra = Inr command"
    by (simp add: build_command_def)
  show ?thesis
    by (cases dry_run) (simp_all add: run_tool_def c Let_def print_def split: option.splits)
qed

theorem run_tool_dry_run_witness:
  "''lm-eval'' \<in> fst ` set TOOL_COMMANDS
   \<and> run_tool (\<lambda>exe. False) (\<lambda>command. 1) ''lm-eval'' ''cfg.yaml'' None True [] world0 =
       (Inr 0, world0\<lparr>stdout :=
          [''[benchmark] Tool     : lm-eval'', ''[benchmark] Config   : cfg.yaml'',
           ''[benchmark] Extra    : (none)'',
           ''[benchmark] Command  : lm_eval --config cfg.yaml'',
           ''[benchmark] Dry run requested. Command not executed.'']\<rparr>)"
proof -
  have h: "''lm-eval'' \<in> fst ` set TOOL_COMMANDS"
    by (simp add: TOOL_COMMANDS_def)
  have "run_tool (\<lambda>exe. False) (\<lambda>command. 1) ''lm-eval'' ''cfg.yaml'' None True [] world0 =
       (Inr 0, world0\<lparr>stdout :=
          [''[benchmark] Tool     : lm-eval'', ''[benchmark] Config   : cfg.yaml'',
           ''[benchmark] Extra    : (none)'',
           ''[benchmark] Command  : lm_eval --config cfg.yaml'',
           ''[benchmark] Dry run requested. Command not executed.'']\<rparr>)"
    using run_tool_dry_run [OF h, of "\<lambda>exe. False" "\<lambda>command. 1" "''cfg.yaml''" None "[]" world0]
    by (simp add: run_tool_def build_command_def TOOL_COMMANDS_def add_model_def add_config_def
        print_def world0_def)
  with h show ?thesis by blast
qed

text \<open>
  For a tool outside the table the dry run does not return 0: the \<^verbatim>\<open>ValueError\<close> of
  \<^verbatim>\<open>build_command\<close> leaves \<^verbatim>\<open>run_tool\<close>.
\<close>

theorem run_tool_unknown_tool_counterexample:
  "fst (run_tool (\<lambda>exe. False) (\<lambda>command. 1) ''mmlu'' ''cfg.yaml'' None True [] world0) =
     Inl (unsupported_tool ''mmlu'')"
  by (simp add: run_tool_def build_command_def TOOL_COMMANDS_def)

section \<open>The traversal\<close>

lemma series_update: "series (AList.update key v m) k = (if k = key then v else series m k)"
  by (simp add: series_def update_conv)

lemma record_sample_series:
  "record_sample prefix c m = (e, m') \<Longrightarrow>
     e = (case c of Inl exc \<Rightarrow> Some exc | Inr x \<Rightarrow> None) \<and>
     series m' k = series m k @ (case c of Inl exc \<Rightarrow> [] | Inr x \<Rightarrow> if k = rstrip_dot prefix then [x] else [])"
  by (auto simp: record_sample_def getitem_def Let_def series_update split: option.splits sum.splits)
     (auto simp: series_def)

lemma recorded_append: "recorded prefix (xs @ ys) k = recorded prefix xs k @ recorded prefix ys k"
  by (simp add: recorded_def)

lemma recorded_Nil: "recorded prefix [] k = []"
  by (simp add: recorded_def)

lemma recorded_push:
  "recorded prefix (map (\<lambda>(p, x). (key # p, x)) ls) k = recorded (prefix @ key @ ''.'') ls k"
  by (simp add: recorded_def filter_map comp_def case_prod_unfold)

lemma collect_series:
  "collect_numeric payload prefix m = (None, m') \<Longrightarrow>
     series m' k = series m k @ recorded prefix (numeric_leaves payload) k"
  "collect_items items prefix m = (None, m') \<Longrightarrow>
     series m' k = series m k @ recorded prefix (numeric_items items) k"
  "collect_elems xs idx prefix m = (None, m') \<Longrightarrow>
     series m' k = series m k @ recorded prefix (numeric_elems xs idx) k"
proof (induction payload prefix m and items prefix m and xs idx prefix m
       arbitrary: m' and m' and m'
       rule: collect_numeric_collect_items_collect_elems.induct)
  case (3 n prefix m)
  then show ?case
    using record_sample_series [of prefix "float_of_int n" m None m' k]
    by (auto simp: float_of_int_def recorded_def split: if_splits)
next
  case (4 x prefix m)
  then show ?case
    using record_sample_series [of prefix "Inr x" m None m' k]
    by (auto simp: recorded_def)
next
  case (9 key "value" rest prefix m)
  from "9.prems" obtain m1 where
    a: "collect_numeric value (prefix @ key @ ''.'') m = (None, m1)" and
    b: "collect_items rest prefix m1 = (None, m')"
    by (auto split: prod.splits option.splits)
  from "9.IH"(1) [OF a] "9.IH"(2) [OF a [symmetric] refl b] show ?case
    by (simp add: recorded_append recorded_push)
next
  case (11 "value" rest idx prefix m)
  from "11.prems" obtain m1 where
    a: "collect_numeric value (prefix @ str_nat idx @ ''.'') m = (None, m1)" and
    b: "collect_elems rest (Suc idx) prefix m1 = (None, m')"
    by (auto split: prod.splits option.splits)
  from "11.IH"(1) [OF a] "11.IH"(2) [OF a [symmetric] refl b] show ?case
    by (simp add: recorded_append recorded_push)
qed (auto simp: recorded_Nil)

lemma series_Nil [simp]: "series [] k = []"
  by (simp add: series_def)

lemma additiveI:
  assumes "\<And>m. fst (f m) = fst (f [])"
    and "\<And>m k. series (snd (f m)) k = series m k @ series (snd (f [])) k"
    and "\<And>m. keys_distinct m \<Longrightarrow> keys_distinct (snd (f m))"
  shows "additive f"
  unfolding additive_def using assms by blast

lemma additive_fst: "additive f \<Longrightarrow> fst (f m) = fst (f [])"
  unfolding additive_def by blast

lemma additive_series:
  "additive f \<Longrightarrow> series (snd (f m)) k = series m k @ series (snd (f [])) k"
  unfolding additive_def by blast

lemma additive_distinct: "additive f \<Longrightarrow> keys_distinct m \<Longrightarrow> keys_distinct (snd (f m))"
  unfolding additive_def by blast

lemma additive_const: "additive (\<lambda>m. (e, m))"
  by (simp add: additive_def)

lemma keys_distinct_update: "keys_distinct m \<Longrightarrow> keys_distinct (AList.update k v m)"
  by (simp add: keys_distinct_def distinct_update)

lemma additive_record_sample: "additive (record_sample prefix c)"
proof (rule additiveI)
  fix m
  show "fst (record_sample prefix c m) = fst (record_sample prefix c [])"
    using record_sample_series [of prefix c m] record_sample_series [of prefix c "[]"]
    by (metis prod.collapse)
next
  fix m k
  show "series (snd (record_sample prefix c m)) k =
          series m k @ series (snd (record_sample prefix c [])) k"
    using record_sample_series [of prefix c m _ _ k] record_sample_series [of prefix c "[]" _ _ k]
    by (metis prod.collapse series_Nil append_Nil)
next
  fix m :: metrics
  assume "keys_distinct m"
  then show "keys_distinct (snd (record_sample prefix c m))"
    by (auto simp: record_sample_def getitem_def Let_def keys_distinct_update
        split: option.splits sum.splits)
qed

lemma additive_seq:
  assumes f: "additive f" and g: "fst (f []) = None \<Longrightarrow> additive g"
  shows "additive (seq f g)"
proof (cases "fst (f [])")
  case None
  then have fn: "\<And>m. f m = (None, snd (f m))"
    using additive_fst [OF f] by (metis prod.collapse)
  have s: "\<And>m. seq f g m = g (snd (f m))"
    by (subst seq_def, subst fn) simp
  note ag = g [OF None]
  show ?thesis
  proof (rule additiveI)
    fix m
    show "fst (seq f g m) = fst (seq f g [])"
      using additive_fst [OF ag, of "snd (f m)"] additive_fst [OF ag, of "snd (f [])"]
      by (simp add: s)
  next
    fix m k
    show "series (snd (seq f g m)) k = series m k @ series (snd (seq f g [])) k"
      using additive_series [OF ag, of "snd (f m)" k] additive_series [OF ag, of "snd (f [])" k]
        additive_series [OF f, of m k]
      by (simp add: s)
  next
    fix m :: metrics
    assume "keys_distinct m"
    then show "keys_distinct (snd (seq f g m))"
      by (simp add: s additive_distinct [OF ag] additive_distinct [OF f])
  qed
next
  case (Some e)
  then have fn: "\<And>m. f m = (Some e, snd (f m))"
    using additive_fst [OF f] by (metis prod.collapse)
  have s: "\<And>m. seq f g m = (Some e, snd (f m))"
    by (subst seq_def, subst fn) simp
  show ?thesis
  proof (rule additiveI)
    fix m k
    show "series (snd (seq f g m)) k = series m k @ series (snd (seq f g [])) k"
      using additive_series [OF f, of m k] by (simp add: s)
  qed (simp_all add: s additive_distinct [OF f])
qed

lemma collect_items_seq:
  "collect_items ((key, value) # rest) prefix =
     seq (collect_numeric value (prefix @ key @ ''.'')) (collect_items rest prefix)"
  by (rule ext) (simp add: seq_def)

lemma collect_elems_seq:
  "collect_elems (value # rest) idx prefix =
     seq (collect_numeric value (prefix @ str_nat idx @ ''.'')) (collect_elems rest (Suc idx) prefix)"
  by (rule ext) (simp add: seq_def)

lemma additive_collect_items:
  assumes "\<And>key value prefix. (key, value) \<in> set items \<Longrightarrow> additive (collect_numeric value prefix)"
  shows "additive (collect_items items prefix)"
  using assms
proof (induction items)
  case Nil
  have "collect_items [] prefix = (\<lambda>m. (None, m))"
    by (rule ext) simp
  then show ?case by (simp add: additive_const)
next
  case (Cons kv rest)
  obtain key "value" where kv: "kv = (key, value)"
    by (cases kv)
  show ?case
    unfolding kv collect_items_seq
    by (rule additive_seq) (use Cons kv in auto)
qed

lemma additive_collect_elems:
  assumes "\<And>value prefix. value \<in> set xs \<Longrightarrow> additive (collect_numeric value prefix)"
  shows "additive (collect_elems xs idx prefix)"
  using assms
proof (induction xs arbitrary: idx)
  case Nil
  have "collect_elems [] idx prefix = (\<lambda>m. (None, m))"
    by (rule ext) simp
  then show ?case by (simp add: additive_const)
next
  case (Cons x rest)
  show ?case
    unfolding collect_elems_seq
    by (rule additive_seq) (use Cons in auto)
qed

lemma scalar_additive: "(\<And>m. f m = (None, m)) \<Longrightarrow> additive f"
  unfolding additive_def by simp

lemma additive_collect_numeric: "additive (collect_numeric payload prefix)"
proof (induction payload arbitrary: prefix)
  case (JInt n)
  have "collect_numeric (JInt n) prefix = record_sample prefix (float_of_int n)"
    by (rule ext) simp
  then show ?case by (simp add: additive_record_sample)
next
  case (JFloat x)
  have "collect_numeric (JFloat x) prefix = record_sample prefix (Inr x)"
    by (rule ext) simp
  then show ?case by (simp add: additive_record_sample)
next
  case (JList xs)
  have "collect_numeric (JList xs) prefix = collect_elems xs 0 prefix"
    by (rule ext) simp
  with JList show ?case by (simp add: additive_collect_elems)
next
  case (JObj items)
  have "collect_numeric (JObj items) prefix = collect_items items prefix"
    by (rule ext) simp
  moreover have "additive (collect_items items prefix)"
    by (rule additive_collect_items) (use JObj in force)
  ultimately show ?case by simp
qed (simp_all add: scalar_additive)

section \<open>Scanning the files\<close>

lemma additive_decoded:
  "additive (\<lambda>m. case r of Inl e \<Rightarrow> (Some e, m) | Inr data \<Rightarrow> collect_numeric data [] m)"
  by (cases r) (simp_all add: additive_const additive_collect_numeric)

lemma scan_lines_seq:
  "scan_lines json_loads (line # rest) =
     (if strip line = [] then scan_lines json_loads rest
      else seq (\<lambda>m. case json_loads line of Inl e \<Rightarrow> (Some e, m)
                                        | Inr data \<Rightarrow> collect_numeric data [] m)
               (scan_lines json_loads rest))"
  by (rule ext) (simp add: seq_def split: sum.splits)

lemma additive_scan_lines: "additive (scan_lines json_loads ls)"
proof (induction ls)
  case Nil
  have "scan_lines json_loads [] = (\<lambda>m. (None, m))"
    by (rule ext) simp
  then show ?case by (simp add: additive_const)
next
  case (Cons line rest)
  show ?case
    unfolding scan_lines_seq
    using Cons by (simp add: additive_seq additive_decoded)
qed

lemma additive_scan_document: "additive (scan_document decode p)"
proof -
  have "scan_document decode p =
          (\<lambda>m. case (case read_text p of Inl e \<Rightarrow> Inl e | Inr text \<Rightarrow> decode text) of
                  Inl e \<Rightarrow> (Some e, m) | Inr data \<Rightarrow> collect_numeric data [] m)"
    by (rule ext) (simp add: scan_document_def split: sum.splits)
  then show ?thesis
    by (simp add: additive_decoded)
qed

lemma additive_scan_file: "additive (scan_file json_loads yaml p)"
proof -
  have a: "additive (\<lambda>m. case read_text p of Inl e \<Rightarrow> (Some e, m)
                         | Inr text \<Rightarrow> scan_lines json_loads (splitlines text) m)"
    by (cases "read_text p") (simp_all add: additive_const additive_scan_lines)
  have b: "additive (\<lambda>m. case yaml of Some safe_load \<Rightarrow> scan_document safe_load p m
                         | None \<Rightarrow> (None, m))"
    by (cases yaml) (simp_all add: additive_const additive_scan_document)
  have "scan_file json_loads yaml p =
          (if suffix p = ''.json'' then scan_document json_loads p
           else if suffix p = ''.jsonl'' then
             (\<lambda>m. case read_text p of Inl e \<Rightarrow> (Some e, m)
                   | Inr text \<Rightarrow> scan_lines json_loads (splitlines text) m)
           else if suffix p \<in> {''.yml'', ''.yaml''} \<and> yaml \<noteq> None then
             (\<lambda>m. case yaml of Some safe_load \<Rightarrow> scan_document safe_load p m
                   | None \<Rightarrow> (None, m))
           else (\<lambda>m. (None, m)))"
    by (rule ext) (simp add: scan_file_def)
  then show ?thesis
    using a b by (simp add: additive_scan_document additive_const)
qed

lemma scan_file_series:
  "\<not> is_dir p \<Longrightarrow>
     series (snd (scan_file json_loads yaml p m)) k = series m k @ file_series json_loads yaml p k"
  using additive_series [OF additive_scan_file, of json_loads yaml p m k]
  by (simp add: file_series_def)

lemma scan_step:
  "scan json_loads yaml (p # ps) (m, err) =
     (if is_dir p then scan json_loads yaml ps (m, err)
      else scan json_loads yaml ps (snd (scan_file json_loads yaml p m), err @ file_log json_loads yaml p))"
  using additive_fst [OF additive_scan_file, of json_loads yaml p m]
  by (cases "scan_file json_loads yaml p m") (auto simp: file_log_def split: option.splits)

lemma scan_series:
  "series (fst (scan json_loads yaml ps (m, err))) k =
     series m k @ concat (map (\<lambda>p. file_series json_loads yaml p k) ps)"
proof (induction ps arbitrary: m err)
  case Nil
  show ?case by simp
next
  case (Cons p ps)
  show ?case
  proof (cases "is_dir p")
    case True
    then show ?thesis
      by (simp add: Cons.IH file_series_def del: scan.simps add: scan_step)
  next
    case False
    then show ?thesis
      by (simp add: Cons.IH scan_file_series del: scan.simps add: scan_step)
  qed
qed

lemma scan_log:
  "snd (scan json_loads yaml ps (m, err)) = err @ concat (map (file_log json_loads yaml) ps)"
proof (induction ps arbitrary: m err)
  case Nil
  show ?case by simp
next
  case (Cons p ps)
  show ?case
    by (cases "is_dir p") (simp_all add: Cons.IH del: scan.simps add: scan_step, simp add: file_log_def)
qed

lemma scan_distinct:
  "keys_distinct m \<Longrightarrow> keys_distinct (fst (scan json_loads yaml ps (m, err)))"
proof (induction ps arbitrary: m err)
  case Nil
  then show ?case by simp
next
  case (Cons p ps)
  then show ?case
    using additive_distinct [OF additive_scan_file, of m json_loads yaml p]
    by (simp del: scan.simps add: scan_step)
qed

section \<open>Statistics of one series\<close>

lemma flt_irrefl [simp]: "\<not> flt x x"
  by (cases x) simp_all


lemma flt_trans: "flt x y \<Longrightarrow> flt y z \<Longrightarrow> flt x z"
  by (cases x; cases y; cases z) simp_all












section \<open>The summary loop\<close>

lemma py_min_total: "xs \<noteq> [] \<Longrightarrow> \<exists>r. py_min xs = Inr r"
  by (cases xs) simp_all

lemma py_max_total: "xs \<noteq> [] \<Longrightarrow> \<exists>r. py_max xs = Inr r"
  by (cases xs) simp_all

lemma series_summary_Inl:
  assumes "xs \<noteq> []"
  shows "series_summary xs = Inl e \<longleftrightarrow> mixed_inf xs \<and> e = inf_error"
proof -
  from py_min_total [OF assms] obtain lo where lo: "py_min xs = Inr lo" by blast
  from py_max_total [OF assms] obtain hi where hi: "py_max xs = Inr hi" by blast
  show ?thesis
    using assms
    by (auto simp: series_summary_def fmean_def fsum_def lo hi mixed_inf_def inf_error_def)
qed

lemma series_summary_count:
  "series_summary xs = Inr stats \<Longrightarrow> stat_count stats = Finite (of_nat (length xs))"
  by (auto simp: series_summary_def split: sum.splits)

lemma series_Cons: "series ((n, vs) # m) k = (if k = n then vs else series m k)"
  by (simp add: series_def)

lemma series_absent: "k \<notin> fst ` set m \<Longrightarrow> series m k = []"
  by (simp add: series_def map_of_eq_None_iff [THEN iffD2])

lemma build_summary_Inl:
  "build_summary m s0 = Inl e \<longleftrightarrow> (\<exists>(n, vs) \<in> set m. mixed_inf vs) \<and> e = inf_error"
proof (induction m arbitrary: s0)
  case Nil
  show ?case by simp
next
  case (Cons a m)
  obtain n vs where a: "a = (n, vs)" by (cases a)
  show ?case
  proof (cases "vs = []")
    case True
    then show ?thesis by (simp add: a Cons.IH mixed_inf_def)
  next
    case False
    show ?thesis
    proof (cases "series_summary vs")
      case (Inl e')
      with series_summary_Inl [OF False, of e'] show ?thesis
        using False by (auto simp: a)
    next
      case (Inr stats)
      with series_summary_Inl [OF False, of inf_error] have "\<not> mixed_inf vs" by simp
      with Inr False show ?thesis by (simp add: a Cons.IH)
    qed
  qed
qed

lemma build_summary_Inr:
  assumes "build_summary m s0 = Inr s" and "keys_distinct m"
  shows "map_of s k = (if series m k = [] then map_of s0 k else summary_of m k)"
  using assms
proof (induction m arbitrary: s0)
  case Nil
  then show ?case by simp
next
  case (Cons a m)
  obtain n vs where a: "a = (n, vs)" by (cases a)
  from Cons.prems(2) have d: "keys_distinct m" and nk: "n \<notin> fst ` set m"
    by (auto simp: keys_distinct_def a)
  have sn: "series m n = []" by (rule series_absent [OF nk])
  show ?case
  proof (cases "vs = []")
    case True
    with Cons.prems(1) have "build_summary m s0 = Inr s" by (simp add: a)
    from Cons.IH [OF this d] show ?thesis
      using True sn by (auto simp: a series_Cons summary_of_def)
  next
    case False
    with Cons.prems(1) obtain stats where st: "series_summary vs = Inr stats"
      and b: "build_summary m (AList.update n stats s0) = Inr s"
      by (auto simp: a split: sum.splits)
    from Cons.IH [OF b d] show ?thesis
      using False sn st by (auto simp: a series_Cons summary_of_def update_conv)
  qed
qed

lemma build_summary_distinct:
  "build_summary m s0 = Inr s \<Longrightarrow> distinct (map fst s0) \<Longrightarrow> distinct (map fst s)"
proof (induction m arbitrary: s0)
  case Nil
  then show ?case by simp
next
  case (Cons a m)
  obtain n vs where a: "a = (n, vs)" by (cases a)
  from Cons.prems show ?case
    by (auto simp: a distinct_update split: if_splits sum.splits intro: Cons.IH)
qed

lemma mixed_inf_series:
  assumes "keys_distinct m"
  shows "(\<exists>(n, vs) \<in> set m. mixed_inf vs) \<longleftrightarrow> (\<exists>k. mixed_inf (series m k))"
proof
  assume "\<exists>(n, vs) \<in> set m. mixed_inf vs"
  then obtain n vs where nv: "(n, vs) \<in> set m" "mixed_inf vs" by auto
  with assms have "map_of m n = Some vs" by (simp add: keys_distinct_def)
  then have "series m n = vs" by (simp add: series_def)
  with nv show "\<exists>k. mixed_inf (series m k)" by blast
next
  assume "\<exists>k. mixed_inf (series m k)"
  then obtain k where k: "mixed_inf (series m k)" by blast
  then have "series m k \<noteq> []" by (auto simp: mixed_inf_def)
  then obtain vs where "map_of m k = Some vs" "series m k = vs"
    by (auto simp: series_def split: option.splits)
  with k show "\<exists>(n, vs) \<in> set m. mixed_inf vs"
    by (auto dest: map_of_SomeD)
qed

text \<open>The result of the summary loop, from the series alone.\<close>

lemma build_summary_series:
  assumes "keys_distinct m"
  shows "map_sum id map_of (build_summary m []) =
           (if \<exists>k. mixed_inf (series m k) then Inl inf_error else Inr (summary_of m))"
proof (cases "build_summary m []")
  case (Inl e)
  with build_summary_Inl [of m "[]" e] mixed_inf_series [OF assms] show ?thesis by auto
next
  case (Inr s)
  have "\<not> (\<exists>(n, vs) \<in> set m. mixed_inf vs)"
    using build_summary_Inl [of m "[]" inf_error] Inr by auto
  with mixed_inf_series [OF assms] have no: "\<not> (\<exists>k. mixed_inf (series m k))" by simp
  have "map_of s = summary_of m"
  proof
    fix k
    show "map_of s k = summary_of m k"
      using build_summary_Inr [OF Inr assms, of k] by (simp add: summary_of_def)
  qed
  with Inr no show ?thesis by simp
qed

section \<open>Independence of the visiting order\<close>

lemma summarize_fst:
  "fst (summarize_artifacts json_loads yaml directory) =
     build_summary (collected json_loads yaml directory) []"
  by (simp add: summarize_artifacts_def collected_def split: prod.splits)

lemma summarize_snd:
  "snd (summarize_artifacts json_loads yaml directory) =
     concat (map (file_log json_loads yaml) directory)"
  using scan_log [of json_loads yaml directory "[]" "[]"]
  by (cases "scan json_loads yaml directory ([], [])") (simp add: summarize_artifacts_def)

lemma collected_series:
  "series (collected json_loads yaml directory) k =
     concat (map (\<lambda>p. file_series json_loads yaml p k) directory)"
  using scan_series [of json_loads yaml directory "[]" "[]" k]
  by (simp add: collected_def)

lemma collected_distinct: "keys_distinct (collected json_loads yaml directory)"
  unfolding collected_def by (rule scan_distinct) (simp add: keys_distinct_def)

lemma summarize_series:
  "map_sum id map_of (fst (summarize_artifacts json_loads yaml directory)) =
     (if \<exists>k. mixed_inf (series (collected json_loads yaml directory) k) then Inl inf_error
      else Inr (summary_of (collected json_loads yaml directory)))"
  unfolding summarize_fst by (rule build_summary_series [OF collected_distinct])






lemma summarize_distinct:
  "fst (summarize_artifacts json_loads yaml d) = Inr s \<Longrightarrow> distinct (map fst s)"
  unfolding summarize_fst by (erule build_summary_distinct) simp














section \<open>What the traversal records\<close>

lemma numeric_items_Nil:
  "numeric_items ((key, value) # rest) = [] \<longleftrightarrow> numeric_leaves value = [] \<and> numeric_items rest = []"
  by simp

lemma collect_items_unchanged:
  assumes "\<And>key value prefix m. (key, value) \<in> set items \<Longrightarrow> numeric_leaves value = [] \<Longrightarrow>
             collect_numeric value prefix m = (None, m)"
    and "numeric_items items = []"
  shows "collect_items items prefix m = (None, m)"
  using assms
proof (induction items)
  case Nil
  show ?case by simp
next
  case (Cons kv rest)
  obtain key "value" where kv: "kv = (key, value)" by (cases kv)
  from Cons.prems(2) have a: "numeric_leaves value = []" and b: "numeric_items rest = []"
    by (simp_all add: kv)
  have "(key, value) \<in> set (kv # rest)" by (simp add: kv)
  from Cons.prems(1) [OF this a]
  have "collect_numeric value (prefix @ key @ ''.'') m = (None, m)" .
  moreover have "collect_items rest prefix m = (None, m)"
  proof (rule Cons.IH [OF _ b])
    fix key' value' prefix' m'
    assume "(key', value') \<in> set rest" and n: "numeric_leaves value' = []"
    then have "(key', value') \<in> set (kv # rest)" by simp
    from Cons.prems(1) [OF this n] show "collect_numeric value' prefix' m' = (None, m')" .
  qed
  ultimately show ?case by (simp add: kv)
qed

lemma collect_elems_unchanged:
  assumes "\<And>value prefix m. value \<in> set xs \<Longrightarrow> numeric_leaves value = [] \<Longrightarrow>
             collect_numeric value prefix m = (None, m)"
    and "numeric_elems xs idx = []"
  shows "collect_elems xs idx prefix m = (None, m)"
  using assms
proof (induction xs arbitrary: idx)
  case Nil
  show ?case by simp
next
  case (Cons x rest)
  from Cons.prems(2) have a: "numeric_leaves x = []" and b: "numeric_elems rest (Suc idx) = []"
    by simp_all
  have "collect_numeric x (prefix @ str_nat idx @ ''.'') m = (None, m)"
    by (rule Cons.prems(1) [OF _ a]) simp
  moreover have "collect_elems rest (Suc idx) prefix m = (None, m)"
  proof (rule Cons.IH [OF _ b])
    fix value' prefix' m'
    assume "value' \<in> set rest" and n: "numeric_leaves value' = []"
    then have "value' \<in> set (x # rest)" by simp
    from Cons.prems(1) [OF this n] show "collect_numeric value' prefix' m' = (None, m')" .
  qed
  ultimately show ?case by simp
qed

lemma collect_numeric_unchanged:
  "numeric_leaves payload = [] \<Longrightarrow> collect_numeric payload prefix m = (None, m)"
proof (induction payload arbitrary: prefix m)
  case (JList xs)
  from JList.prems have "numeric_elems xs 0 = []" by simp
  with JList.IH show ?case
    by (simp add: collect_elems_unchanged)
next
  case (JObj items)
  from JObj.prems have n: "numeric_items items = []" by simp
  have "collect_items items prefix m = (None, m)"
  proof (rule collect_items_unchanged [OF _ n])
    fix key "value" prefix' m'
    assume kv: "(key, value) \<in> set items" and l: "numeric_leaves value = []"
    have "value \<in> Basic_BNFs.snds (key, value)" by simp
    from JObj.IH [OF kv this l] show "collect_numeric value prefix' m' = (None, m')" .
  qed
  then show ?case by simp
qed simp_all

text \<open>
  Claim C3. A boolean, a string and a null leave the dictionary as it is and raise
  nothing; a float, and an integer in the range of a float, is appended to the series
  of the stripped prefix; a document without any integer or float leaf leaves the
  dictionary as it is, as the document \<^verbatim>\<open>{"flag": true, "name": "ok"}\<close> does.
\<close>

theorem collect_numeric_scalars:
  "collect_numeric (JBool b) prefix m = (None, m)
   \<and> collect_numeric (JStr s) prefix m = (None, m)
   \<and> collect_numeric JNull prefix m = (None, m)
   \<and> series (snd (collect_numeric (JFloat x) prefix m)) (rstrip_dot prefix) =
       series m (rstrip_dot prefix) @ [x]
   \<and> (\<bar>n\<bar> < 2 ^ 1024 - 2 ^ 970 \<longrightarrow>
        series (snd (collect_numeric (JInt n) prefix m)) (rstrip_dot prefix) =
        series m (rstrip_dot prefix) @ [Finite (of_int n)])
   \<and> (numeric_leaves payload = [] \<longrightarrow> collect_numeric payload prefix m = (None, m))
   \<and> collect_numeric (JObj [(''flag'', JBool True), (''name'', JStr ''ok'')]) prefix m = (None, m)"
proof -
  have f: "series (snd (collect_numeric (JFloat x) prefix m)) (rstrip_dot prefix) =
       series m (rstrip_dot prefix) @ [x]"
    using record_sample_series [of prefix "Inr x" m _ _ "rstrip_dot prefix"]
    by (cases "record_sample prefix (Inr x) m") simp
  have i: "\<bar>n\<bar> < 2 ^ 1024 - 2 ^ 970 \<longrightarrow>
        series (snd (collect_numeric (JInt n) prefix m)) (rstrip_dot prefix) =
        series m (rstrip_dot prefix) @ [Finite (of_int n)]"
  proof
    assume a: "\<bar>n\<bar> < 2 ^ 1024 - 2 ^ 970"
    then have c: "float_of_int n = Inr (Finite (of_int n))"
      by (simp add: float_of_int_def)
    show "series (snd (collect_numeric (JInt n) prefix m)) (rstrip_dot prefix) =
            series m (rstrip_dot prefix) @ [Finite (of_int n)]"
      using record_sample_series [of prefix "Inr (Finite (of_int n))" m _ _ "rstrip_dot prefix"]
      by (cases "record_sample prefix (Inr (Finite (of_int n))) m") (simp add: c)
  qed
  from f i show ?thesis
    by (simp add: collect_numeric_unchanged)
qed

theorem collect_numeric_scalars_witness:
  "numeric_leaves flag_doc = []
   \<and> collect_numeric flag_doc [] [] = (None, [])
   \<and> \<bar>7 :: int\<bar> < 2 ^ 1024 - 2 ^ 970
   \<and> series (snd (collect_numeric (JInt 7) ''score.'' [])) ''score'' = [Finite 7]
   \<and> summarize_artifacts example_loads None [flag_json] = (Inr [], [])"
proof -
  have h: "numeric_leaves flag_doc = []"
    by (simp add: flag_doc_def)
  have b: "\<bar>7 :: int\<bar> < 2 ^ 1024 - 2 ^ 970"
    by simp
  have r: "rstrip_dot ''score.'' = ''score''"
    by (simp add: rstrip_dot_def)
  have s: "summarize_artifacts example_loads None [flag_json] = (Inr [], [])"
    by code_simp
  have c: "collect_numeric flag_doc [] [] = (None, [])"
    using collect_numeric_scalars [of _ "[]" "[]" _ _ 7 flag_doc] h by blast
  have d: "series (snd (collect_numeric (JInt 7) ''score.'' [])) ''score'' = [Finite 7]"
    using collect_numeric_scalars [of _ "''score.''" "[]" _ _ 7 flag_doc] b r by simp
  from h b c d s show ?thesis
    by blast
qed

section \<open>The summary and the report\<close>

lemma summarize_no_samples:
  assumes "\<And>k. series (collected json_loads yaml directory) k = []"
  shows "fst (summarize_artifacts json_loads yaml directory) = Inr []"
proof -
  have "\<not> (\<exists>k. mixed_inf (series (collected json_loads yaml directory) k))"
    by (simp add: assms mixed_inf_def)
  with summarize_series [of json_loads yaml directory]
  have m: "map_sum id map_of (fst (summarize_artifacts json_loads yaml directory)) =
           Inr (summary_of (collected json_loads yaml directory))"
    by simp
  then obtain s where s: "fst (summarize_artifacts json_loads yaml directory) = Inr s"
    by (cases "fst (summarize_artifacts json_loads yaml directory)") simp_all
  with m have "map_of s = summary_of (collected json_loads yaml directory)" by simp
  also have "\<dots> = Map.empty"
    by (rule ext) (simp add: summary_of_def assms)
  finally have "s = []" by simp
  with s show ?thesis by simp
qed

text \<open>
  Claim C9. An empty summary is printed as the single line
  \<^verbatim>\<open>[summarize] No numeric metrics discovered in artifacts.\<close> and not as a table. A
  directory without paths, and a directory none of whose files records a sample, give
  the empty summary; and when the directory exists and its summary is empty, \<^verbatim>\<open>main\<close>
  prints that line and returns 0.
\<close>

theorem no_metrics_message:
  "print_summary_table format_row [] =
     [''[summarize] No numeric metrics discovered in artifacts.'']
   \<and> summarize_artifacts json_loads yaml [] = (Inr [], [])
   \<and> ((\<forall>p \<in> set directory. \<forall>name. file_series json_loads yaml p name = []) \<longrightarrow>
        fst (summarize_artifacts json_loads yaml directory) = Inr [])
   \<and> (env_exists env dir \<longrightarrow>
        fst (summarize_artifacts (env_json_loads env) (env_yaml env) (env_rglob env dir)) = Inr [] \<longrightarrow>
        fst (main env (Summarize dir) w) = Returned 0 \<and>
        stdout (snd (main env (Summarize dir) w)) =
          stdout w @ [''[summarize] No numeric metrics discovered in artifacts.''])"
proof (intro conjI impI)
  show "print_summary_table format_row [] =
     [''[summarize] No numeric metrics discovered in artifacts.'']"
    by (simp add: print_summary_table_def no_metrics_def)
  show "summarize_artifacts json_loads yaml [] = (Inr [], [])"
    by (simp add: summarize_artifacts_def)
next
  assume a: "\<forall>p \<in> set directory. \<forall>name. file_series json_loads yaml p name = []"
  show "fst (summarize_artifacts json_loads yaml directory) = Inr []"
  proof (rule summarize_no_samples)
    fix k
    from a show "series (collected json_loads yaml directory) k = []"
      by (simp add: collected_series)
  qed
next
  assume e: "env_exists env dir"
    and s: "fst (summarize_artifacts (env_json_loads env) (env_yaml env) (env_rglob env dir)) = Inr []"
  obtain r err where r: "summarize_artifacts (env_json_loads env) (env_yaml env) (env_rglob env dir) = (r, err)"
    by (cases "summarize_artifacts (env_json_loads env) (env_yaml env) (env_rglob env dir)")
  with s have r': "r = Inr []" by simp
  show "fst (main env (Summarize dir) w) = Returned 0"
    by (simp add: main_def e r r')
  show "stdout (snd (main env (Summarize dir) w)) =
          stdout w @ [''[summarize] No numeric metrics discovered in artifacts.'']"
    by (simp add: main_def e r r' print_summary_table_def no_metrics_def eprint_def)
qed

theorem no_metrics_message_witness:
  "env_exists example_env ''runs''
   \<and> fst (summarize_artifacts (env_json_loads example_env) (env_yaml example_env)
            (env_rglob example_env ''runs'')) = Inr []
   \<and> main example_env (Summarize ''runs'') world0 =
       (Returned 0,
        world0\<lparr>stdout := [''[summarize] No numeric metrics discovered in artifacts.'']\<rparr>)
   \<and> file_series example_loads None flag_json ''flag'' = []
   \<and> fst (summarize_artifacts example_loads None [flag_json]) = Inr []"
proof -
  have e: "env_exists example_env ''runs''"
    by (simp add: example_env_def)
  have s: "fst (summarize_artifacts (env_json_loads example_env) (env_yaml example_env)
            (env_rglob example_env ''runs'')) = Inr []"
    by code_simp
  have m: "main example_env (Summarize ''runs'') world0 =
       (Returned 0,
        world0\<lparr>stdout := [''[summarize] No numeric metrics discovered in artifacts.'']\<rparr>)"
    by code_simp
  have c: "collect_numeric flag_doc [] [] = (None, [])"
    by (simp add: flag_doc_def)
  have f: "\<And>name. file_series example_loads None flag_json name = []"
    by (simp add: file_series_def flag_json_def regular_file_def scan_file_def scan_document_def
        example_loads_def c [unfolded flag_doc_def])
  then have a: "\<forall>p \<in> set [flag_json]. \<forall>name. file_series example_loads None p name = []"
    by simp
  from no_metrics_message [of _ example_loads None "[flag_json]" example_env "''runs''" world0] e s m f a
  show ?thesis
    by simp
qed

text \<open>
  Claim C6. Every entry of the mapping that \<^verbatim>\<open>summarize_artifacts\<close> returns belongs to a
  metric path that holds at least one collected sample: its count is the number of these
  samples, which is at least 1, and its statistics are those of these samples.
\<close>

theorem summary_entries_nonempty:
  assumes "fst (summarize_artifacts json_loads yaml directory) = Inr summary"
    and "(name, stats) \<in> set summary"
  shows "series (collected json_loads yaml directory) name \<noteq> []
       \<and> 1 \<le> length (series (collected json_loads yaml directory) name)
       \<and> stat_count stats = Finite (of_nat (length (series (collected json_loads yaml directory) name)))
       \<and> series_summary (series (collected json_loads yaml directory) name) = Inr stats"
proof -
  let ?m = "collected json_loads yaml directory"
  from assms(1) have b: "build_summary ?m [] = Inr summary"
    by (simp add: summarize_fst)
  have "distinct (map fst summary)"
    by (rule summarize_distinct [OF assms(1)])
  with assms(2) have "map_of summary name = Some stats" by simp
  with build_summary_Inr [OF b collected_distinct, of name]
  have s: "(if series ?m name = [] then None else summary_of ?m name) = Some stats"
    by simp
  then have n: "series ?m name \<noteq> []" by (auto split: if_splits)
  with s have "summary_of ?m name = Some stats" by simp
  with n have ss: "series_summary (series ?m name) = Inr stats"
    by (auto simp: summary_of_def split: sum.splits)
  from n have "1 \<le> length (series ?m name)"
    by (cases "series ?m name") simp_all
  with n ss series_summary_count [OF ss] show ?thesis by simp
qed

theorem summary_entries_nonempty_witness:
  "fst (summarize_artifacts example_loads None [one_json, lines_jsonl]) =
     Inr [(''x'', \<lparr>stat_count = Finite 3, stat_mean = Finite (5 / 3), stat_min = Finite 1,
                  stat_max = Finite 3\<rparr>)]
   \<and> series (collected example_loads None [one_json, lines_jsonl]) ''x'' \<noteq> []
   \<and> stat_count \<lparr>stat_count = Finite 3, stat_mean = Finite (5 / 3), stat_min = Finite 1,
                  stat_max = Finite 3\<rparr> =
       Finite (of_nat (length (series (collected example_loads None [one_json, lines_jsonl]) ''x'')))"
proof -
  have s: "fst (summarize_artifacts example_loads None [one_json, lines_jsonl]) =
     Inr [(''x'', \<lparr>stat_count = Finite 3, stat_mean = Finite (5 / 3), stat_min = Finite 1,
                  stat_max = Finite 3\<rparr>)]"
    by code_simp
  have i: "(''x'', \<lparr>stat_count = Finite 3, stat_mean = Finite (5 / 3), stat_min = Finite 1,
                  stat_max = Finite 3\<rparr>) \<in>
           set [(''x'', \<lparr>stat_count = Finite 3, stat_mean = Finite (5 / 3), stat_min = Finite 1,
                  stat_max = Finite 3\<rparr>)]"
    by simp
  from summary_entries_nonempty [OF s i] s show ?thesis
    by blast
qed

text \<open>
  The test \<^verbatim>\<open>if not values: continue\<close> of the summary loop is needed: an integer too large
  for a float leaves its key in the dictionary with an empty list, and no summary entry
  is made for it.
\<close>

lemma empty_series_skipped:
  "collected (\<lambda>s. Inr (JObj [(''big'', JInt (2 ^ 1024))])) None
     [regular_file ''runs/big.json'' ''.json'' []] = [(''big'', [])]
   \<and> fst (summarize_artifacts (\<lambda>s. Inr (JObj [(''big'', JInt (2 ^ 1024))])) None
          [regular_file ''runs/big.json'' ''.json'' []]) = Inr []"
  by code_simp

section \<open>Series names\<close>

lemma rstrip_dot_snoc: "rstrip_dot (s @ ''.'') = rstrip_dot s"
  by (simp add: rstrip_dot_def)

lemma rstrip_dot_id: "s = [] \<or> last s \<noteq> CHR ''.'' \<Longrightarrow> rstrip_dot s = s"
  by (cases s rule: rev_cases) (simp_all add: rstrip_dot_def)

lemma dots_dotted:
  "p \<noteq> [] \<Longrightarrow> concat (map (\<lambda>c. c @ ''.'') p) = dotted p @ ''.''"
  unfolding dotted_def by (induction "''.''" p rule: join.induct) simp_all

lemma rstrip_dots: "rstrip_dot (concat (map (\<lambda>c. c @ ''.'') p)) = rstrip_dot (dotted p)"
proof (cases "p = []")
  case True
  then show ?thesis by (simp add: dotted_def)
next
  case False
  then show ?thesis by (simp add: dots_dotted rstrip_dot_snoc del: append.simps)
qed

lemma recorded_root:
  "recorded [] leaves name =
     map snd (filter (\<lambda>(p, x). rstrip_dot (dotted p) = name) leaves)"
  by (simp add: recorded_def rstrip_dots)

text \<open>
  Claim C2, as amended. When the traversal of a document raises nothing, the samples it
  appends to a series are exactly the numeric leaves whose dotted path, with every
  trailing dot removed, is the name of the series, in document order; so every numeric
  leaf is recorded under its dotted path stripped of trailing dots, which is the dotted
  path itself unless that ends in a dot. A directory with the single JSON file
  \<^verbatim>\<open>{"a": {"b": 1, "c": 2.5}}\<close> yields exactly the series \<^verbatim>\<open>a.b\<close> (count 1, mean, minimum
  and maximum 1) and \<^verbatim>\<open>a.c\<close> (count 1, mean, minimum and maximum 2.5).
\<close>

theorem numeric_leaves_recorded:
  assumes "collect_numeric payload [] m = (None, m')"
  shows "series m' name =
           series m name @
           map snd (filter (\<lambda>(p, x). rstrip_dot (dotted p) = name) (numeric_leaves payload))
       \<and> ((p, x) \<in> set (numeric_leaves payload) \<longrightarrow> x \<in> set (series m' (rstrip_dot (dotted p))))
       \<and> ((p, x) \<in> set (numeric_leaves payload) \<longrightarrow> dotted p = [] \<or> last (dotted p) \<noteq> CHR ''.'' \<longrightarrow>
            x \<in> set (series m' (dotted p)))
       \<and> (json_loads content =
              Inr (JObj [(''a'', JObj [(''b'', JInt 1), (''c'', JFloat (Finite (5 / 2)))])]) \<longrightarrow>
            summarize_artifacts json_loads yaml [regular_file file_name ''.json'' content] =
              (Inr [(''a.b'', \<lparr>stat_count = Finite 1, stat_mean = Finite 1, stat_min = Finite 1,
                               stat_max = Finite 1\<rparr>),
                    (''a.c'', \<lparr>stat_count = Finite 1, stat_mean = Finite (5 / 2),
                               stat_min = Finite (5 / 2), stat_max = Finite (5 / 2)\<rparr>)], []))"
proof -
  have s: "\<And>k. series m' k =
           series m k @
           map snd (filter (\<lambda>(p, x). rstrip_dot (dotted p) = k) (numeric_leaves payload))"
    using collect_series(1) [OF assms] by (simp add: recorded_root)
  have r: "(p, x) \<in> set (numeric_leaves payload) \<longrightarrow> x \<in> set (series m' (rstrip_dot (dotted p)))"
    by (force simp: s)
  have d: "(p, x) \<in> set (numeric_leaves payload) \<longrightarrow> dotted p = [] \<or> last (dotted p) \<noteq> CHR ''.'' \<longrightarrow>
            x \<in> set (series m' (dotted p))"
    using r rstrip_dot_id [of "dotted p"] by auto
  have e: "json_loads content =
              Inr (JObj [(''a'', JObj [(''b'', JInt 1), (''c'', JFloat (Finite (5 / 2)))])]) \<longrightarrow>
            summarize_artifacts json_loads yaml [regular_file file_name ''.json'' content] =
              (Inr [(''a.b'', \<lparr>stat_count = Finite 1, stat_mean = Finite 1, stat_min = Finite 1,
                               stat_max = Finite 1\<rparr>),
                    (''a.c'', \<lparr>stat_count = Finite 1, stat_mean = Finite (5 / 2),
                               stat_min = Finite (5 / 2), stat_max = Finite (5 / 2)\<rparr>)], [])"
    by (simp add: summarize_artifacts_def regular_file_def scan_file_def scan_document_def
        record_sample_def getitem_def rstrip_dot_def float_of_int_def series_summary_def
        fmean_def fsum_def)
  from s r d e show ?thesis by blast
qed

theorem numeric_leaves_recorded_witness:
  \<open>collect_numeric accuracy_doc [] [] = (None, [(''results.0.accuracy'', [Finite (9 / 10)])])
   \<and> ([''results'', ''0'', ''accuracy''], Finite (9 / 10)) \<in> set (numeric_leaves accuracy_doc)
   \<and> dotted [''results'', ''0'', ''accuracy''] = ''results.0.accuracy''
   \<and> Finite (9 / 10) \<in> set (series [(''results.0.accuracy'', [Finite (9 / 10)])]
                               (dotted [''results'', ''0'', ''accuracy'']))
   \<and> example_loads ''{"a": {"b": 1, "c": 2.5}}'' =
         Inr (JObj [(''a'', JObj [(''b'', JInt 1), (''c'', JFloat (Finite (5 / 2)))])])
   \<and> summarize_artifacts example_loads None
         [regular_file ''runs/r.json'' ''.json'' ''{"a": {"b": 1, "c": 2.5}}''] =
         (Inr [(''a.b'', \<lparr>stat_count = Finite 1, stat_mean = Finite 1, stat_min = Finite 1,
                          stat_max = Finite 1\<rparr>),
               (''a.c'', \<lparr>stat_count = Finite 1, stat_mean = Finite (5 / 2),
                          stat_min = Finite (5 / 2), stat_max = Finite (5 / 2)\<rparr>)], [])\<close>
proof -
  have c: "collect_numeric accuracy_doc [] [] = (None, [(''results.0.accuracy'', [Finite (9 / 10)])])"
    by code_simp
  have l: "([''results'', ''0'', ''accuracy''], Finite (9 / 10)) \<in> set (numeric_leaves accuracy_doc)"
    by code_simp
  have d: "dotted [''results'', ''0'', ''accuracy''] = ''results.0.accuracy''"
    by (simp add: dotted_def)
  have e: \<open>example_loads ''{"a": {"b": 1, "c": 2.5}}'' =
         Inr (JObj [(''a'', JObj [(''b'', JInt 1), (''c'', JFloat (Finite (5 / 2)))])])\<close>
    by (simp add: example_loads_def)
  have h: "dotted [''results'', ''0'', ''accuracy''] = [] \<or>
           last (dotted [''results'', ''0'', ''accuracy'']) \<noteq> CHR ''.''"
    by (simp add: d)
  from numeric_leaves_recorded [OF c, of "''results.0.accuracy''" "[''results'', ''0'', ''accuracy'']"
      "Finite (9 / 10)" example_loads \<open>''{"a": {"b": 1, "c": 2.5}}''\<close> None "''runs/r.json''"]
    c l d e h
  show ?thesis
    by blast
qed

text \<open>
  The claim as first stated fails for a key that ends in a dot: the leaf of
  \<^verbatim>\<open>{"a.": 1}\<close> has the dotted path \<^verbatim>\<open>a.\<close> and is recorded under \<^verbatim>\<open>a\<close>, because
  \<^verbatim>\<open>rstrip(".")\<close> removes every trailing dot. An integer too large for a float is a numeric
  leaf that is not recorded at all: \<^verbatim>\<open>float\<close> raises \<^verbatim>\<open>OverflowError\<close>.
\<close>

theorem numeric_leaves_recorded_counterexample:
  "numeric_leaves (JObj [(''a.'', JInt 1)]) = [([''a.''], Finite 1)]
   \<and> dotted [''a.''] = ''a.''
   \<and> collect_numeric (JObj [(''a.'', JInt 1)]) [] [] = (None, [(''a'', [Finite 1])])
   \<and> collect_numeric (JObj [(''n'', JInt (2 ^ 1024))]) [] [] =
       (Some (OverflowError ''int too large to convert to float''), [(''n'', [])])"
  by code_simp

end
